theory Spec2Isabelle
  imports Complex_Main
begin

section \<open>JavaScript strings\<close>

text \<open>
  Strings are lists of characters. The model covers ASCII text: case folding, white space
  and percent-encoding are those of the ASCII range, which is what the engine's own
  templates, addresses and links are made of.
\<close>

definition toLowerChar :: "char \<Rightarrow> char" where
  "toLowerChar c =
     (case map_of (zip ''ABCDEFGHIJKLMNOPQRSTUVWXYZ'' ''abcdefghijklmnopqrstuvwxyz'') c of
        Some l \<Rightarrow> l
      | None \<Rightarrow> c)"

definition toLowerCase :: "string \<Rightarrow> string" where
  "toLowerCase s = map toLowerChar s"

text \<open>White space as \<open>String.prototype.trim\<close> and the regular expression class \<open>\s\<close>
  see it: tab, line feed, vertical tab, form feed, carriage return and space.\<close>

definition isSpace :: "char \<Rightarrow> bool" where
  "isSpace c = (c \<in> set [CHR 0x09, CHR 0x0A, CHR 0x0B, CHR 0x0C, CHR 0x0D, CHR 0x20])"

definition trim :: "string \<Rightarrow> string" where
  "trim s = rev (dropWhile isSpace (rev (dropWhile isSpace s)))"

fun startsWith :: "string \<Rightarrow> string \<Rightarrow> bool" where
  "startsWith s [] = True"
| "startsWith [] (p # ps) = False"
| "startsWith (c # cs) (p # ps) = (c = p \<and> startsWith cs ps)"

text \<open>\<open>s.includes(p)\<close>: \<open>p\<close> occurs somewhere in \<open>s\<close>.\<close>

fun includes_str :: "string \<Rightarrow> string \<Rightarrow> bool" where
  "includes_str [] p = (p = [])"
| "includes_str (c # cs) p = (startsWith (c # cs) p \<or> includes_str cs p)"

text \<open>\<open>s.replace(p, r)\<close> with a string pattern: the first occurrence only. (The
  replacement is taken literally; a \<open>$\<close> in it is not given its special meaning.)\<close>

fun replaceFirst :: "string \<Rightarrow> string \<Rightarrow> string \<Rightarrow> string" where
  "replaceFirst [] p r = (if p = [] then r else [])"
| "replaceFirst (c # cs) p r =
     (if startsWith (c # cs) p then r @ drop (length p) (c # cs)
      else c # replaceFirst cs p r)"

text \<open>\<open>s.replace(/\n/g, '<br>')\<close>.\<close>

definition nl2br :: "string \<Rightarrow> string" where
  "nl2br s = concat (map (\<lambda>c. if c = CHR 0x0A then ''<br>'' else [c]) s)"

text \<open>\<open>s.split(' ')[0]\<close>: the text before the first space.\<close>

definition firstWord :: "string \<Rightarrow> string" where
  "firstWord s = takeWhile (\<lambda>c. c \<noteq> CHR 0x20) s"

text \<open>A nullable string inside a template literal: \<open>null\<close> prints as the word null.\<close>

definition jsStr :: "string option \<Rightarrow> string" where
  "jsStr v = (case v of None \<Rightarrow> ''null'' | Some s \<Rightarrow> s)"

text \<open>Truthiness of a nullable string: \<open>null\<close> and the empty string are falsy.\<close>

definition truthy :: "string option \<Rightarrow> bool" where
  "truthy v = (case v of None \<Rightarrow> False | Some s \<Rightarrow> s \<noteq> [])"

definition hexDigit :: "nat \<Rightarrow> char" where
  "hexDigit n = ''0123456789ABCDEF'' ! (n mod 16)"

definition unreserved :: "char \<Rightarrow> bool" where
  "unreserved c =
     (c \<in> set (''ABCDEFGHIJKLMNOPQRSTUVWXYZabcdefghijklmnopqrstuvwxyz0123456789-_.!~*()''
              @ [CHR 0x27]))"

definition encodeURIComponent :: "string \<Rightarrow> string" where
  "encodeURIComponent s =
     concat (map (\<lambda>c. if unreserved c then [c]
                       else [CHR ''%'', hexDigit (of_char c div 16), hexDigit (of_char c mod 16)]) s)"



section \<open>Data model\<close>

text \<open>
  A row of \<open>outreach_campaigns\<close>. Time stamps are milliseconds since the epoch; a column
  that is \<open>null\<close> is \<open>None\<close>. The columns are those the engine reads or writes.
\<close>

record campaign =
  cid :: string
  recipient_email :: "string option"
  contact_name :: "string option"
  company_name :: "string option"
  subject :: "string option"
  status :: string
  created_at :: "int option"
  updated_at :: "int option"
  sent_at :: "int option"
  delivered_at :: "int option"
  opened_at :: "int option"
  clicked_at :: "int option"
  replied_at :: "int option"
  bounced_at :: "int option"
  unsubscribed_at :: "int option"
  last_followup_at :: "int option"
  calendly_clicked_at :: "int option"
  booking_email_sent_at :: "int option"
  retry_scheduled_at :: "int option"
  flagged_at :: "int option"
  open_count :: "int option"
  click_count :: "int option"
  followup_count :: "int option"
  needs_review :: "bool option"
  review_reason :: "string option"

record engagement_event =
  ev_campaign_id :: string
  ev_event_type :: string
  ev_metadata :: "(string \<times> string option) list"
  ev_created_at :: int

record conversation_message =
  msg_campaign_id :: string
  msg_direction :: string
  msg_message_type :: string
  msg_subject :: string
  msg_message_content :: string
  msg_sent_at :: int

record blocklist_entry =
  bl_email :: string
  bl_reason :: string
  bl_details :: "string option"
  bl_created_at :: int

text \<open>
  One call of \<open>resend.emails.send\<close>: the payload (\<open>text\<close> is \<open>call_body\<close>; the
  constant \<open>List-Unsubscribe-Post\<close> header is left out), and \<open>call_campaign\<close>, the
  \<open>campaignId\<close> argument of the \<open>sendEmail\<close> that made the call.
\<close>

record provider_call =
  call_from :: string
  call_to :: string
  call_subject :: string
  call_body :: string
  call_html :: string
  call_list_unsubscribe :: string
  call_campaign :: "string option"

text \<open>What the provider answers: \<open>{data}\<close>, \<open>{error}\<close>, or an exception.\<close>

datatype provider_outcome = Accepted string | Rejected string | Threw string

datatype send_result = Sent string | Blocked | Failed string

datatype error = TypeError

record sequence_step =
  delay :: int
  step_type :: string
  step_subject :: string

record config =
  fromEmail :: string
  senderName :: string
  trackingBaseUrl :: string
  calendlyLink :: string
  defaultSequence :: "sequence_step list"

text \<open>The constructor's values when no environment variable is set.\<close>

definition defaultConfig :: config where
  "defaultConfig =
     \<lparr> fromEmail = ''maggie@maggieforbesstrategies.com'',
       senderName = ''Maggie Forbes'',
       trackingBaseUrl = ''https://web-production-486cb.up.railway.app'',
       calendlyLink = ''https://calendly.com/maggieforbes/discovery'',
       defaultSequence =
         [\<lparr> delay = 72, step_type = ''follow_up_1'', step_subject = ''Quick follow-up'' \<rparr>,
          \<lparr> delay = 168, step_type = ''follow_up_2'', step_subject = ''One more thought'' \<rparr>,
          \<lparr> delay = 336, step_type = ''follow_up_final'', step_subject = ''Last note'' \<rparr>] \<rparr>"

text \<open>
  The engine's world: the four tables, the log of provider calls, and the counters of
  \<open>this.stats\<close>. The tables are in memory and their operations succeed.
\<close>

record world =
  outreach_campaigns :: "campaign list"
  email_blocklist :: "blocklist_entry list"
  email_conversations :: "conversation_message list"
  email_engagement :: "engagement_event list"
  resend_calls :: "provider_call list"
  emailsSent :: nat
  repliesProcessed :: nat
  bookingsTriggered :: nat
  followUpsSent :: nat

section \<open>Table helpers\<close>

text \<open>\<open>campaign.count || 0\<close>.\<close>

definition orZero :: "int option \<Rightarrow> int" where
  "orZero v = (case v of None \<Rightarrow> 0 | Some n \<Rightarrow> n)"

text \<open>
  \<open>updateCampaign(campaignId, updates)\<close>: every row with that id takes the updates and a
  fresh \<open>updated_at\<close>. The updates are a function that sets the listed columns.
\<close>

definition updateCampaign :: "int \<Rightarrow> string \<Rightarrow> (campaign \<Rightarrow> campaign) \<Rightarrow> world \<Rightarrow> world" where
  "updateCampaign now i updates w =
     w\<lparr> outreach_campaigns :=
          map (\<lambda>r. if cid r = i then (updates r)\<lparr> updated_at := Some now \<rparr> else r)
              (outreach_campaigns w) \<rparr>"

definition logEngagement ::
  "int \<Rightarrow> string \<Rightarrow> string \<Rightarrow> (string \<times> string option) list \<Rightarrow> world \<Rightarrow> world" where
  "logEngagement now i eventType metadata w =
     w\<lparr> email_engagement := email_engagement w @
          [\<lparr> ev_campaign_id = i, ev_event_type = eventType, ev_metadata = metadata,
             ev_created_at = now \<rparr>] \<rparr>"

definition storeOutgoingEmail :: "int \<Rightarrow> string \<Rightarrow> string \<times> string \<Rightarrow> string \<Rightarrow> world \<Rightarrow> world" where
  "storeOutgoingEmail now i email ty w =
     w\<lparr> email_conversations := email_conversations w @
          [\<lparr> msg_campaign_id = i, msg_direction = ''outgoing'', msg_message_type = ty,
             msg_subject = fst email, msg_message_content = snd email, msg_sent_at = now \<rparr>] \<rparr>"

definition isEmailBlocked :: "string \<Rightarrow> world \<Rightarrow> bool" where
  "isEmailBlocked email w =
     (filter (\<lambda>b. bl_email b = toLowerCase email) (email_blocklist w) \<noteq> [])"

text \<open>\<open>upsert(row, {onConflict: 'email'})\<close>: the row replaces the one with its email,
  or is added.\<close>

definition upsertBlock :: "blocklist_entry \<Rightarrow> world \<Rightarrow> world" where
  "upsertBlock e w =
     w\<lparr> email_blocklist :=
          (if filter (\<lambda>b. bl_email b = bl_email e) (email_blocklist w) = []
           then email_blocklist w @ [e]
           else map (\<lambda>b. if bl_email b = bl_email e then e else b) (email_blocklist w)) \<rparr>"

definition addToBounceList :: "int \<Rightarrow> string \<Rightarrow> string option \<Rightarrow> world \<Rightarrow> world" where
  "addToBounceList now email reason w =
     upsertBlock \<lparr> bl_email = toLowerCase email, bl_reason = ''bounce'', bl_details = reason,
                   bl_created_at = now \<rparr> w"

definition addToUnsubscribeList :: "int \<Rightarrow> string \<Rightarrow> string option \<Rightarrow> world \<Rightarrow> world" where
  "addToUnsubscribeList now email reason w =
     upsertBlock \<lparr> bl_email = toLowerCase email, bl_reason = ''unsubscribe'', bl_details = reason,
                   bl_created_at = now \<rparr> w"

text \<open>
  \<open>findCampaignByEmail\<close>: the rows of the lower-cased, trimmed address, newest
  \<open>created_at\<close> first (a descending order puts \<open>null\<close> first), one row. Among rows of
  one \<open>created_at\<close> the model takes the first of the table.
\<close>

definition createdBefore :: "campaign \<Rightarrow> campaign \<Rightarrow> bool" where
  "createdBefore r b =
     (case created_at r of
        None \<Rightarrow> False
      | Some t \<Rightarrow> (case created_at b of None \<Rightarrow> True | Some u \<Rightarrow> t < u))"

fun newest :: "campaign list \<Rightarrow> campaign option" where
  "newest [] = None"
| "newest (r # rs) =
     (case newest rs of
        None \<Rightarrow> Some r
      | Some b \<Rightarrow> if createdBefore r b then Some b else Some r)"

definition findCampaignByEmail :: "string \<Rightarrow> world \<Rightarrow> campaign option" where
  "findCampaignByEmail email w =
     newest (filter (\<lambda>r. recipient_email r = Some (trim (toLowerCase email)))
                    (outreach_campaigns w))"

text \<open>\<open>.eq('id', campaignId).single()\<close>: the row, when there is exactly one.\<close>

definition singleById :: "string \<Rightarrow> world \<Rightarrow> campaign option" where
  "singleById i w =
     (case filter (\<lambda>r. cid r = i) (outreach_campaigns w) of
        [r] \<Rightarrow> Some r
      | _ \<Rightarrow> None)"

section \<open>Delivery tracking\<close>

text \<open>
  The regular expression \<open>https?:\/\/[^\s<>"]+\<close> at the start of a text: the scheme, then
  the longest non-empty run of characters that are neither white space nor one of
  \<open><\<close>, \<open>>\<close> and the double quote.
\<close>

definition urlChar :: "char \<Rightarrow> bool" where
  "urlChar c = (\<not> isSpace c \<and> c \<noteq> CHR ''<'' \<and> c \<noteq> CHR ''>'' \<and> c \<noteq> CHR 0x22)"

definition urlMatch :: "string \<Rightarrow> string option" where
  "urlMatch s =
     (let p = (if startsWith s ''https://'' then 8 else if startsWith s ''http://'' then 7 else 0);
          run = takeWhile urlChar (drop p s)
      in if p = 0 \<or> run = [] then None else Some (take p s @ run))"

text \<open>
  \<open>body.replace(regex, callback)\<close> with the global flag: the text is scanned from the
  left; where the expression matches, the callback's result replaces the match and the
  scan goes on behind it; elsewhere the character is kept.
\<close>

function replaceUrls :: "(string \<Rightarrow> string) \<Rightarrow> string \<Rightarrow> string" where
  "replaceUrls f [] = []"
| "replaceUrls f (c # cs) =
     (case urlMatch (c # cs) of
        Some m \<Rightarrow> f m @ replaceUrls f (drop (length m) (c # cs))
      | None \<Rightarrow> c # replaceUrls f cs)"
  by pat_completeness auto
termination
  by (relation "measure (\<lambda>(f, s). length s)")
     (auto simp: urlMatch_def Let_def split: if_splits)


text \<open>The callback of \<open>addTracking\<close>: tracking links and Calendly links stay as they
  are, every other link becomes a click redirect.\<close>

definition wrapLink :: "config \<Rightarrow> string \<Rightarrow> string \<Rightarrow> string" where
  "wrapLink cfg campaignId m =
     (if includes_str m ''/api/track'' \<or> includes_str m ''calendly'' then m
      else trackingBaseUrl cfg @ ''/api/track/click/'' @ campaignId @ ''?url=''
           @ encodeURIComponent m)"

definition trackingPixel :: "config \<Rightarrow> string \<Rightarrow> string" where
  "trackingPixel cfg campaignId =
     ''<img src='' @ [CHR 0x22] @ trackingBaseUrl cfg @ ''/api/track/open/'' @ campaignId
     @ [CHR 0x22] @ '' width='' @ [CHR 0x22] @ ''1'' @ [CHR 0x22]
     @ '' height='' @ [CHR 0x22] @ ''1'' @ [CHR 0x22]
     @ '' style='' @ [CHR 0x22] @ ''display:none;'' @ [CHR 0x22]
     @ '' alt='' @ [CHR 0x22] @ [CHR 0x22] @ '' />''"

definition addTracking :: "config \<Rightarrow> string \<Rightarrow> string option \<Rightarrow> string" where
  "addTracking cfg body campaignId =
     (if \<not> truthy campaignId then body
      else replaceUrls (wrapLink cfg (the campaignId)) body @ trackingPixel cfg (the campaignId))"

text \<open>\<open>trackOpen\<close>, the handler of the tracking pixel. (The picture it returns is a
  constant and is left out.)\<close>

definition trackOpen :: "int \<Rightarrow> string \<Rightarrow> world \<Rightarrow> world" where
  "trackOpen now campaignId w =
     (case singleById campaignId w of
        None \<Rightarrow> w
      | Some c \<Rightarrow>
          logEngagement now campaignId ''open'' [(''source'', Some ''pixel'')]
            (updateCampaign now campaignId
               (\<lambda>r. if opened_at c = None
                    then r\<lparr> open_count := Some (orZero (open_count c) + 1), opened_at := Some now \<rparr>
                    else r\<lparr> open_count := Some (orZero (open_count c) + 1) \<rparr>) w))"

text \<open>\<open>trackClick\<close>, the handler of the click redirect; it returns the target.\<close>

definition trackClick :: "int \<Rightarrow> string \<Rightarrow> string \<Rightarrow> world \<Rightarrow> string \<times> world" where
  "trackClick now campaignId targetUrl w =
     (targetUrl,
      case singleById campaignId w of
        None \<Rightarrow> w
      | Some c \<Rightarrow>
          logEngagement now campaignId ''click'' [(''url'', Some targetUrl)]
            (updateCampaign now campaignId
               (\<lambda>r. if clicked_at c = None
                    then r\<lparr> click_count := Some (orZero (click_count c) + 1), clicked_at := Some now \<rparr>
                    else r\<lparr> click_count := Some (orZero (click_count c) + 1) \<rparr>) w))"

section \<open>Provider events\<close>

text \<open>The \<open>data\<close> of a provider event, as the two handlers read it.\<close>

record event_data =
  email_id :: "string option"
  rcpt :: string
  link :: "string option"

definition handleEmailOpened :: "int \<Rightarrow> event_data \<Rightarrow> world \<Rightarrow> world" where
  "handleEmailOpened now d w =
     (case findCampaignByEmail (rcpt d) w of
        None \<Rightarrow> w
      | Some c \<Rightarrow>
          if opened_at c = None
          then logEngagement now (cid c) ''open'' [(''email_id'', email_id d)]
                 (updateCampaign now (cid c)
                    (\<lambda>r. r\<lparr> opened_at := Some now,
                             open_count := Some (orZero (open_count c) + 1) \<rparr>) w)
          else updateCampaign now (cid c)
                 (\<lambda>r. r\<lparr> open_count := Some (orZero (open_count c) + 1) \<rparr>) w)"

definition handleEmailClicked :: "int \<Rightarrow> event_data \<Rightarrow> world \<Rightarrow> world" where
  "handleEmailClicked now d w =
     (case findCampaignByEmail (rcpt d) w of
        None \<Rightarrow> w
      | Some c \<Rightarrow>
          (let w1 = updateCampaign now (cid c)
                      (\<lambda>r. r\<lparr> clicked_at := Some now,
                               click_count := Some (orZero (click_count c) + 1) \<rparr>) w;
               w2 = logEngagement now (cid c) ''click''
                      [(''email_id'', email_id d), (''link'', link d)] w1
           in if truthy (link d) \<and> includes_str (the (link d)) ''calendly''
              then updateCampaign now (cid c)
                     (\<lambda>r. r\<lparr> status := ''booking'', calendly_clicked_at := Some now \<rparr>) w2
              else w2))"

section \<open>Sending\<close>

text \<open>
  \<open>sendEmail\<close>. The provider's answer to the \<open>n\<close>-th call is \<open>prov n\<close>, so the provider
  may answer each call as it likes. A \<open>null\<close> recipient makes \<open>isEmailBlocked\<close> raise a
  \<open>TypeError\<close>. The result comes with the world the call leaves behind.
\<close>

definition sendEmail ::
  "config \<Rightarrow> (nat \<Rightarrow> provider_outcome) \<Rightarrow> string option \<Rightarrow> string \<Rightarrow> string \<Rightarrow> string option
     \<Rightarrow> world \<Rightarrow> (error + send_result) \<times> world" where
  "sendEmail cfg prov recipient subj body campaignId w =
     (case recipient of
        None \<Rightarrow> (Inl TypeError, w)
      | Some addr \<Rightarrow>
          if isEmailBlocked addr w then (Inr Blocked, w)
          else
            (let trackedBody = addTracking cfg body campaignId;
                 unsubscribeUrl = trackingBaseUrl cfg @ ''/api/unsubscribe/'' @ encodeURIComponent addr;
                 w1 = w\<lparr> resend_calls := resend_calls w @
                        [\<lparr> call_from = senderName cfg @ '' <'' @ fromEmail cfg @ ''>'',
                           call_to = addr,
                           call_subject = subj,
                           call_body = body,
                           call_html = nl2br trackedBody,
                           call_list_unsubscribe = ''<'' @ unsubscribeUrl @ ''>'',
                           call_campaign = campaignId \<rparr>] \<rparr>
             in case prov (length (resend_calls w)) of
                  Accepted i \<Rightarrow> (Inr (Sent i), w1\<lparr> emailsSent := emailsSent w1 + 1 \<rparr>)
                | Rejected m \<Rightarrow> (Inr (Failed m), w1)
                | Threw m \<Rightarrow> (Inr (Failed m), w1)))"

definition greeting :: "string \<Rightarrow> string" where
  "greeting firstName = ''Hi'' @ (if firstName \<noteq> [] then '' '' @ firstName else []) @ '',''"

definition firstNameOf :: "campaign \<Rightarrow> string" where
  "firstNameOf c = (if truthy (contact_name c) then firstWord (the (contact_name c)) else [])"

definition sendBookingEmail ::
  "config \<Rightarrow> (nat \<Rightarrow> provider_outcome) \<Rightarrow> int \<Rightarrow> campaign \<Rightarrow> world \<Rightarrow> (error + unit) \<times> world" where
  "sendBookingEmail cfg prov now c w =
     (let firstName = firstNameOf c;
          subj = ''Let's find a time to chat, ''
                 @ (if firstName \<noteq> [] then firstName else jsStr (company_name c));
          body = greeting firstName @ ''\<newline>\<newline>''
            @ ''Great to hear back from you! I'd love to learn more about what you're building at ''
            @ jsStr (company_name c) @ ''.\<newline>\<newline>''
            @ ''Here's my calendar - pick any time that works for you:\<newline>\<newline>''
            @ calendlyLink cfg @ ''\<newline>\<newline>''
            @ ''The call will be quick (15-20 minutes) and focused on understanding your specific situation.''
            @ ''\<newline>\<newline>Looking forward to it!\<newline>\<newline>''
            @ senderName cfg
      in case sendEmail cfg prov (recipient_email c) subj body (Some (cid c)) w of
           (Inl e, w1) \<Rightarrow> (Inl e, w1)
         | (Inr r, w1) \<Rightarrow>
             (Inr (),
              updateCampaign now (cid c)
                (\<lambda>r. r\<lparr> status := ''booking_sent'', booking_email_sent_at := Some now \<rparr>) w1))"

definition sendFollowUpEmail ::
  "config \<Rightarrow> (nat \<Rightarrow> provider_outcome) \<Rightarrow> int \<Rightarrow> campaign \<Rightarrow> string \<Rightarrow> string \<Rightarrow> world
     \<Rightarrow> (error + unit) \<times> world" where
  "sendFollowUpEmail cfg prov now c responseText ty w =
     (let body = replaceFirst responseText ''[CALENDAR_LINK]'' (calendlyLink cfg);
          subj = ''Re: '' @ (if truthy (subject c) then the (subject c) else jsStr (company_name c))
      in case sendEmail cfg prov (recipient_email c) subj body (Some (cid c)) w of
           (Inl e, w1) \<Rightarrow> (Inl e, w1)
         | (Inr r, w1) \<Rightarrow> (Inr (), storeOutgoingEmail now (cid c) (subj, body) ty w1))"

section \<open>Follow-up sequencer\<close>

definition getCurrentSequenceStep :: "string \<Rightarrow> nat" where
  "getCurrentSequenceStep st =
     (if st = ''sent'' then 0
      else if st = ''follow_up_1'' then 1
      else if st = ''follow_up_2'' then 2
      else 3)"

text \<open>\<open>array[i]\<close>: \<open>undefined\<close> beyond the end.\<close>

definition nth_opt :: "'a list \<Rightarrow> nat \<Rightarrow> 'a option" where
  "nth_opt xs i = (if i < length xs then Some (xs ! i) else None)"

text \<open>\<open>new Date(campaign.sent_at || campaign.created_at)\<close>; \<open>new Date(null)\<close> is the
  epoch.\<close>

definition sentAtOf :: "campaign \<Rightarrow> int" where
  "sentAtOf c =
     (case sent_at c of
        Some t \<Rightarrow> t
      | None \<Rightarrow> (case created_at c of Some t \<Rightarrow> t | None \<Rightarrow> 0))"

definition lastFollowUpOf :: "campaign \<Rightarrow> int" where
  "lastFollowUpOf c = (case last_followup_at c of Some t \<Rightarrow> t | None \<Rightarrow> sentAtOf c)"

definition hoursNeededAt :: "sequence_step list \<Rightarrow> nat \<Rightarrow> sequence_step \<Rightarrow> int" where
  "hoursNeededAt sq currentStep nextStep =
     (if currentStep = 0 then delay nextStep
      else delay nextStep
           - (case nth_opt sq (currentStep - 1) of Some p \<Rightarrow> delay p | None \<Rightarrow> 0))"

text \<open>The hours are the quotient of the milliseconds by 3600000, taken exactly.\<close>

definition shouldSendFollowUp :: "config \<Rightarrow> int \<Rightarrow> campaign \<Rightarrow> bool" where
  "shouldSendFollowUp cfg now c =
     (let currentStep = getCurrentSequenceStep (status c)
      in case nth_opt (defaultSequence cfg) currentStep of
           None \<Rightarrow> False
         | Some nextStep \<Rightarrow>
             (let hoursSinceLastTouch = (of_int (now - lastFollowUpOf c) / 3600000 :: rat)
              in hoursSinceLastTouch \<ge> of_int (hoursNeededAt (defaultSequence cfg) currentStep nextStep)))"

definition followUp1 :: "config \<Rightarrow> campaign \<Rightarrow> string \<times> string" where
  "followUp1 cfg c =
     (let firstName = firstNameOf c; company = jsStr (company_name c)
      in ((if firstName \<noteq> [] then firstName else company) @ '' - quick follow-up'',
          greeting firstName @ ''\<newline>\<newline>''
          @ ''I wanted to circle back on my previous note about '' @ company @ ''.\<newline>\<newline>''
          @ ''I know things get busy, so I'll keep this brief: if you're still thinking about how to reduce your dependency on the business while maintaining growth, I'd love to chat.''
          @ ''\<newline>\<newline>''
          @ ''Even a 15-minute call could be valuable to explore if there's a fit.\<newline>\<newline>''
          @ calendlyLink cfg @ ''\<newline>\<newline>''
          @ ''Best,\<newline>'' @ senderName cfg))"

definition followUp2 :: "config \<Rightarrow> campaign \<Rightarrow> string \<times> string" where
  "followUp2 cfg c =
     (let firstName = firstNameOf c; company = jsStr (company_name c)
      in (''One more thought for '' @ company,
          greeting firstName @ ''\<newline>\<newline>''
          @ ''I've been thinking about '' @ company
          @ '' and wanted to share one quick observation.\<newline>\<newline>''
          @ ''Many founders at your stage have built something valuable but find themselves as the bottleneck for key decisions. The business works, but it can't scale without you.''
          @ ''\<newline>\<newline>''
          @ ''If that resonates, I've helped several businesses like yours build the leadership layer and systems to grow without adding chaos.''
          @ ''\<newline>\<newline>''
          @ ''Worth a quick conversation?\<newline>\<newline>''
          @ calendlyLink cfg @ ''\<newline>\<newline>''
          @ senderName cfg))"

definition followUpFinal :: "config \<Rightarrow> campaign \<Rightarrow> string \<times> string" where
  "followUpFinal cfg c =
     (let firstName = firstNameOf c; company = jsStr (company_name c)
      in (''Last note - '' @ company,
          greeting firstName @ ''\<newline>\<newline>''
          @ ''I'll keep this short - this will be my last follow-up.\<newline>\<newline>''
          @ ''If building a business that can thrive without your daily involvement isn't a priority right now, I completely understand.''
          @ ''\<newline>\<newline>''
          @ ''But if it is something you're thinking about, even down the road, I'm happy to be a resource.''
          @ ''\<newline>\<newline>''
          @ ''Either way, I wish you continued success with '' @ company @ ''.\<newline>\<newline>''
          @ ''Best,\<newline>'' @ senderName cfg @ ''\<newline>\<newline>''
          @ ''P.S. My calendar is always open if you want to chat: '' @ calendlyLink cfg))"

text \<open>\<open>templates[step.type] || templates.follow_up_1\<close>, as (subject, body), for the
  step types that are names of templates or of no property of an object.\<close>

definition generateFollowUpEmail :: "config \<Rightarrow> campaign \<Rightarrow> sequence_step \<Rightarrow> string \<times> string" where
  "generateFollowUpEmail cfg c step =
     (if step_type step = ''follow_up_2'' then followUp2 cfg c
      else if step_type step = ''follow_up_final'' then followUpFinal cfg c
      else followUp1 cfg c)"

definition sendNextFollowUp ::
  "config \<Rightarrow> (nat \<Rightarrow> provider_outcome) \<Rightarrow> int \<Rightarrow> campaign \<Rightarrow> world \<Rightarrow> (error + unit) \<times> world" where
  "sendNextFollowUp cfg prov now c w =
     (case nth_opt (defaultSequence cfg) (getCurrentSequenceStep (status c)) of
        None \<Rightarrow> (Inr (), w)
      | Some nextStep \<Rightarrow>
          (let followUpContent = generateFollowUpEmail cfg c nextStep
           in case sendEmail cfg prov (recipient_email c) (fst followUpContent)
                     (snd followUpContent) (Some (cid c)) w of
                (Inl e, w1) \<Rightarrow> (Inl e, w1)
              | (Inr r, w1) \<Rightarrow>
                  (Inr (),
                   storeOutgoingEmail now (cid c) followUpContent (step_type nextStep)
                     (updateCampaign now (cid c)
                        (\<lambda>r. r\<lparr> status := step_type nextStep,
                                 last_followup_at := Some now,
                                 followup_count := Some (orZero (followup_count c) + 1) \<rparr>)
                        w1))))"

text \<open>The query of \<open>processFollowUpQueue\<close>.\<close>

definition followUpQuery :: "world \<Rightarrow> campaign list" where
  "followUpQuery w =
     filter (\<lambda>r. status r \<in> set [''sent'', ''follow_up_1'', ''follow_up_2'']
                 \<and> replied_at r = None \<and> bounced_at r = None \<and> unsubscribed_at r = None)
            (outreach_campaigns w)"

text \<open>
  The loop over the rows the query returned. After each send the loop waits ten seconds,
  so the clock of the next iteration is 10000 milliseconds later. An exception ends the
  loop; the world keeps what was written before it.
\<close>

fun followUpLoop ::
  "config \<Rightarrow> (nat \<Rightarrow> provider_outcome) \<Rightarrow> int \<Rightarrow> campaign list \<Rightarrow> nat \<Rightarrow> world
     \<Rightarrow> (error + nat) \<times> world" where
  "followUpLoop cfg prov now [] n w = (Inr n, w)"
| "followUpLoop cfg prov now (c # cs) n w =
     (if shouldSendFollowUp cfg now c
      then (case sendNextFollowUp cfg prov now c w of
              (Inl e, w1) \<Rightarrow> (Inl e, w1)
            | (Inr u, w1) \<Rightarrow> followUpLoop cfg prov (now + 10000) cs (n + 1) w1)
      else followUpLoop cfg prov now cs n w)"

definition processFollowUpQueue ::
  "config \<Rightarrow> (nat \<Rightarrow> provider_outcome) \<Rightarrow> int \<Rightarrow> world \<Rightarrow> (error + nat) \<times> world" where
  "processFollowUpQueue cfg prov now w =
     (case followUpLoop cfg prov now (followUpQuery w) 0 w of
        (Inl e, w1) \<Rightarrow> (Inl e, w1)
      | (Inr n, w1) \<Rightarrow> (Inr n, w1\<lparr> followUpsSent := followUpsSent w1 + n \<rparr>))"

text \<open>Sweep after sweep, one per clock reading, whatever each sweep returns.\<close>

fun sweeps :: "config \<Rightarrow> (nat \<Rightarrow> provider_outcome) \<Rightarrow> int list \<Rightarrow> world \<Rightarrow> world" where
  "sweeps cfg prov [] w = w"
| "sweeps cfg prov (now # nows) w = sweeps cfg prov nows (snd (processFollowUpQueue cfg prov now w))"

section \<open>Replies\<close>

record classification_result =
  classification :: "string option option"
  response :: "string option"
  action :: string

definition scheduleRetry :: "int \<Rightarrow> string \<Rightarrow> int \<Rightarrow> world \<Rightarrow> world" where
  "scheduleRetry now campaignId hoursDelay w =
     updateCampaign now campaignId
       (\<lambda>r. r\<lparr> retry_scheduled_at := Some (now + hoursDelay * 60 * 60 * 1000),
                status := ''retry_scheduled'' \<rparr>) w"

definition flagForReview :: "int \<Rightarrow> string \<Rightarrow> string \<Rightarrow> world \<Rightarrow> world" where
  "flagForReview now campaignId reason w =
     updateCampaign now campaignId
       (\<lambda>r. r\<lparr> needs_review := Some True, review_reason := Some reason,
                flagged_at := Some now \<rparr>) w"

text \<open>
  \<open>handleClassifiedReply\<close>. \<open>classification\<close> is \<open>None\<close> when the result has no such
  object (reading its \<open>intent\<close> then raises a \<open>TypeError\<close>), and otherwise holds the
  intent. The \<open>switch\<close> has no \<open>default\<close> branch.
\<close>

definition handleClassifiedReply ::
  "config \<Rightarrow> (nat \<Rightarrow> provider_outcome) \<Rightarrow> int \<Rightarrow> campaign \<Rightarrow> classification_result \<Rightarrow> world
     \<Rightarrow> (error + unit) \<times> world" where
  "handleClassifiedReply cfg prov now c res w =
     (case classification res of
        None \<Rightarrow> (Inl TypeError, w)
      | Some intent \<Rightarrow>
          if action res = ''send_response_and_monitor'' \<or> action res = ''send_response_and_nurture''
          then (if truthy (response res)
                then sendFollowUpEmail cfg prov now c (the (response res)) ''reply_response'' w
                else (Inr (), w))
          else if action res = ''send_calendar_link''
          then (case sendBookingEmail cfg prov now c w of
                  (Inl e, w1) \<Rightarrow> (Inl e, w1)
                | (Inr u, w1) \<Rightarrow> (Inr (), w1\<lparr> bookingsTriggered := bookingsTriggered w1 + 1 \<rparr>))
          else if action res = ''mark_closed''
          then (Inr (), w)
          else if action res = ''remove_from_list''
          then (case recipient_email c of
                  None \<Rightarrow> (Inl TypeError, w)
                | Some addr \<Rightarrow> (Inr (), addToUnsubscribeList now addr (Some ''requested'') w))
          else if action res = ''wait_and_retry''
          then (Inr (), scheduleRetry now (cid c) 72 w)
          else if action res = ''flag_for_human_review''
          then (Inr (), flagForReview now (cid c) ''unclear_reply'' w)
          else (Inr (), w))"

text \<open>The actions the \<open>switch\<close> has a branch for.\<close>

definition knownActions :: "string list" where
  "knownActions =
     [''send_response_and_monitor'', ''send_response_and_nurture'', ''send_calendar_link'',
      ''mark_closed'', ''remove_from_list'', ''wait_and_retry'', ''flag_for_human_review'']"

subsection \<open>Cleaning a reply\<close>

text \<open>
  Each regular expression of \<open>cleanReplyText\<close> is a test "the expression matches at the
  start of this text"; \<open>search\<close> finds the first position where the rest of the text
  passes the test. \<open>.\<close> matches every character but a line terminator.
\<close>

definition isLineTerminator :: "char \<Rightarrow> bool" where
  "isLineTerminator c = (c = CHR 0x0A \<or> c = CHR 0x0D)"

fun startsWithCI :: "string \<Rightarrow> string \<Rightarrow> bool" where
  "startsWithCI s [] = True"
| "startsWithCI [] (p # ps) = False"
| "startsWithCI (c # cs) (p # ps) = (toLowerChar c = toLowerChar p \<and> startsWithCI cs ps)"

text \<open>\<open>.*p\<close> with the flag \<open>i\<close>: \<open>p\<close> begins further on in the same line.\<close>

fun laterInLineCI :: "string \<Rightarrow> string \<Rightarrow> bool" where
  "laterInLineCI [] p = (p = [])"
| "laterInLineCI (c # cs) p =
     (startsWithCI (c # cs) p \<or> (\<not> isLineTerminator c \<and> laterInLineCI cs p))"

text \<open>\<open>.*\n\<close>: the rest of the line and its line feed; what follows is returned.\<close>

definition afterLine :: "string \<Rightarrow> string option" where
  "afterLine s =
     (case dropWhile (\<lambda>c. \<not> isLineTerminator c) s of
        [] \<Rightarrow> None
      | c # rest \<Rightarrow> if c = CHR 0x0A then Some rest else None)"

text \<open>\<open>/On .* wrote:/gi\<close>\<close>

definition matchOnWrote :: "string \<Rightarrow> bool" where
  "matchOnWrote s = (startsWithCI s ''On '' \<and> laterInLineCI (drop 3 s) '' wrote:'')"

text \<open>\<open>/From:.*\nSent:.*\nTo:.*\nSubject:.*/gi\<close>\<close>

definition matchHeaders :: "string \<Rightarrow> bool" where
  "matchHeaders s =
     (startsWithCI s ''From:'' \<and>
      (case afterLine (drop 5 s) of
         None \<Rightarrow> False
       | Some s2 \<Rightarrow>
           startsWithCI s2 ''Sent:'' \<and>
           (case afterLine (drop 5 s2) of
              None \<Rightarrow> False
            | Some s3 \<Rightarrow>
                startsWithCI s3 ''To:'' \<and>
                (case afterLine (drop 3 s3) of
                   None \<Rightarrow> False
                 | Some s4 \<Rightarrow> startsWithCI s4 ''Subject:''))))"

text \<open>\<open>/_{5,}/g\<close>, \<open>/-{5,}/g\<close>, \<open>/>{1,}.*/gm\<close> and \<open>/\n\n>.*$/s\<close>\<close>

definition matchUnderscores :: "string \<Rightarrow> bool" where
  "matchUnderscores s = startsWith s ''_____''"

definition matchHyphens :: "string \<Rightarrow> bool" where
  "matchHyphens s = startsWith s ''-----''"

definition matchQuote :: "string \<Rightarrow> bool" where
  "matchQuote s = startsWith s ''>''"

definition matchQuotedTail :: "string \<Rightarrow> bool" where
  "matchQuotedTail s = startsWith s ''\<newline>\<newline>>''"

definition patterns :: "(string \<Rightarrow> bool) list" where
  "patterns = [matchOnWrote, matchHeaders, matchUnderscores, matchHyphens, matchQuote, matchQuotedTail]"

text \<open>\<open>text.search(pattern)\<close>: the index of the first match, \<open>None\<close> for \<open>-1\<close>.\<close>

fun search :: "(string \<Rightarrow> bool) \<Rightarrow> string \<Rightarrow> nat option" where
  "search m [] = (if m [] then Some 0 else None)"
| "search m (c # cs) = (if m (c # cs) then Some 0 else map_option Suc (search m cs))"

text \<open>One round of the loop: cut at the match when its index is greater than 0.\<close>

definition cutAt :: "string \<Rightarrow> (string \<Rightarrow> bool) \<Rightarrow> string" where
  "cutAt cleaned m =
     (case search m cleaned of
        None \<Rightarrow> cleaned
      | Some i \<Rightarrow> if i > 0 then take i cleaned else cleaned)"

definition cleanReplyText :: "string option \<Rightarrow> string" where
  "cleanReplyText txt =
     (if \<not> truthy txt then [] else trim (foldl cutAt (the txt) patterns))"



section \<open>Analytics\<close>







section \<open>Readings of the specification and example data\<close>



text \<open>A campaign right after its first mail went out at \<open>t\<close>, and a world of campaigns
  with everything else empty.\<close>

definition newCampaign :: "string \<Rightarrow> string \<Rightarrow> int \<Rightarrow> campaign" where
  "newCampaign i addr t =
     \<lparr> cid = i, recipient_email = Some addr, contact_name = None, company_name = None,
       subject = None, status = ''sent'', created_at = Some t, updated_at = Some t,
       sent_at = Some t, delivered_at = None, opened_at = None, clicked_at = None,
       replied_at = None, bounced_at = None, unsubscribed_at = None, last_followup_at = None,
       calendly_clicked_at = None, booking_email_sent_at = None, retry_scheduled_at = None,
       flagged_at = None, open_count = None, click_count = None, followup_count = None,
       needs_review = None, review_reason = None \<rparr>"

definition worldOf :: "campaign list \<Rightarrow> world" where
  "worldOf cs =
     \<lparr> outreach_campaigns = cs, email_blocklist = [], email_conversations = [],
       email_engagement = [], resend_calls = [], emailsSent = 0, repliesProcessed = 0,
       bookingsTriggered = 0, followUpsSent = 0 \<rparr>"

definition blockedWorld :: "campaign list \<Rightarrow> string \<Rightarrow> world" where
  "blockedWorld cs addr =
     (worldOf cs)\<lparr> email_blocklist :=
        [\<lparr> bl_email = addr, bl_reason = ''bounce'', bl_details = None, bl_created_at = 1 \<rparr>] \<rparr>"

text \<open>A campaign that has replied, bounced or unsubscribed.\<close>

definition halted :: "campaign \<Rightarrow> bool" where
  "halted r = (replied_at r \<noteq> None \<or> bounced_at r \<noteq> None \<or> unsubscribed_at r \<noteq> None)"

section \<open>Properties\<close>

subsection \<open>Auxiliary facts\<close>

lemma trim_lower_example: "trim (toLowerCase ''a@b.com'') = ''a@b.com''"
  by (simp add: trim_def toLowerCase_def toLowerChar_def isSpace_def)

lemma lower_example: "toLowerCase ''a@b.com'' = ''a@b.com''"
  by (simp add: toLowerCase_def toLowerChar_def)

lemma hours_ge_iff: "((of_int d / 3600000 :: rat) \<ge> of_int h) = (d \<ge> h * 3600000)"
proof -
  have "((of_int d / 3600000 :: rat) \<ge> of_int h) = ((of_int h :: rat) * 3600000 \<le> of_int d)"
    by (simp add: pos_le_divide_eq)
  also have "\<dots> = ((of_int (h * 3600000) :: rat) \<le> of_int d)" by simp
  also have "\<dots> = (h * 3600000 \<le> d)" by (simp only: of_int_le_iff)
  finally show ?thesis .
qed

lemma shouldSendFollowUp_ms:
  "shouldSendFollowUp cfg now c =
     (case nth_opt (defaultSequence cfg) (getCurrentSequenceStep (status c)) of
        None \<Rightarrow> False
      | Some nextStep \<Rightarrow>
          now - lastFollowUpOf c
            \<ge> hoursNeededAt (defaultSequence cfg) (getCurrentSequenceStep (status c)) nextStep * 3600000)"
  unfolding shouldSendFollowUp_def Let_def hours_ge_iff
  by (rule refl)

lemma sendEmail_blocked:
  "isEmailBlocked addr w \<Longrightarrow> sendEmail cfg prov (Some addr) subj body i w = (Inr Blocked, w)"
  by (simp add: sendEmail_def)

lemma sendEmail_null: "sendEmail cfg prov None subj body i w = (Inl TypeError, w)"
  by (simp add: sendEmail_def)

lemma sendEmail_returns:
  "\<exists>r. fst (sendEmail cfg prov (Some addr) subj body i w) = Inr r"
  by (simp add: sendEmail_def Let_def split: provider_outcome.splits)

lemma sendEmail_tables:
  "outreach_campaigns (snd (sendEmail cfg prov rc subj body i w)) = outreach_campaigns w"
  "email_blocklist (snd (sendEmail cfg prov rc subj body i w)) = email_blocklist w"
  "email_conversations (snd (sendEmail cfg prov rc subj body i w)) = email_conversations w"
  "email_engagement (snd (sendEmail cfg prov rc subj body i w)) = email_engagement w"
  by (simp_all add: sendEmail_def Let_def split: option.splits provider_outcome.splits)

lemma sendEmail_calls:
  "\<exists>xs. resend_calls (snd (sendEmail cfg prov rc subj body i w)) = resend_calls w @ xs
        \<and> list_all (\<lambda>x. call_campaign x = i) xs"
  by (simp add: sendEmail_def Let_def split: option.splits provider_outcome.splits)

lemma sendEmail_not_dispatched:
  "isEmailBlocked addr w \<or> (\<forall>m. prov (length (resend_calls w)) \<noteq> Accepted m) \<Longrightarrow>
   emailsSent (snd (sendEmail cfg prov (Some addr) subj body i w)) = emailsSent w
   \<and> (\<forall>m. fst (sendEmail cfg prov (Some addr) subj body i w) \<noteq> Inr (Sent m))"
  by (auto simp add: sendEmail_def Let_def split: option.splits provider_outcome.splits)

lemma sendNextFollowUp_Some:
  assumes "nth_opt (defaultSequence cfg) (getCurrentSequenceStep (status c)) = Some nextStep"
    and "recipient_email c = Some addr"
  shows "sendNextFollowUp cfg prov now c w =
     (Inr (),
      storeOutgoingEmail now (cid c) (generateFollowUpEmail cfg c nextStep) (step_type nextStep)
        (updateCampaign now (cid c)
           (\<lambda>r. r\<lparr> status := step_type nextStep, last_followup_at := Some now,
                    followup_count := Some (orZero (followup_count c) + 1) \<rparr>)
           (snd (sendEmail cfg prov (Some addr) (fst (generateFollowUpEmail cfg c nextStep))
                  (snd (generateFollowUpEmail cfg c nextStep)) (Some (cid c)) w))))"
proof -
  obtain r w1 where "sendEmail cfg prov (Some addr) (fst (generateFollowUpEmail cfg c nextStep))
                  (snd (generateFollowUpEmail cfg c nextStep)) (Some (cid c)) w = (Inr r, w1)"
    using sendEmail_returns by (metis prod.collapse)
  then show ?thesis
    using assms
    by (simp add: sendNextFollowUp_def Let_def)
qed

lemma newest_mem: "newest rs = Some c \<Longrightarrow> c \<in> set rs"
  by (induction rs arbitrary: c) (auto split: option.splits if_splits)

lemma findCampaignByEmail_mem:
  "findCampaignByEmail e w = Some c \<Longrightarrow> c \<in> set (outreach_campaigns w)"
  by (auto simp: findCampaignByEmail_def dest: newest_mem)


subsection \<open>The due check (C6)\<close>




subsection \<open>Dispatch on the classifier's action (C2)\<close>

text \<open>
  C2, as stated, fails: an action outside the known set raises nothing. The \<open>switch\<close> has
  no \<open>default\<close> branch; the call returns normally and the world is as before.
\<close>

theorem unknown_action_no_error:
  "''escalate_to_sales'' \<notin> set knownActions \<and>
   handleClassifiedReply defaultConfig (\<lambda>n. Accepted ''m'') 5000 (newCampaign ''c1'' ''a@b.com'' 0)
       \<lparr> classification = Some (Some ''INTERESTED''), response = Some ''Hello'',
         action = ''escalate_to_sales'' \<rparr>
       (worldOf [newCampaign ''c1'' ''a@b.com'' 0])
     = (Inr (), worldOf [newCampaign ''c1'' ''a@b.com'' 0])"
  by (simp add: knownActions_def handleClassifiedReply_def)

text \<open>
  C2, amended: for every classification result whose action is outside the known set,
  \<open>handleClassifiedReply\<close> takes no action and changes nothing; it returns normally when
  the result carries a classification, and the only error it can raise is the
  \<open>TypeError\<close> of reading the intent of a missing classification.
\<close>

theorem unknown_action_is_silent:
  "action res \<notin> set knownActions \<Longrightarrow>
   handleClassifiedReply cfg prov now c res w =
     (case classification res of None \<Rightarrow> (Inl TypeError, w) | Some intent \<Rightarrow> (Inr (), w))"
  by (simp add: knownActions_def handleClassifiedReply_def split: option.splits)

theorem unknown_action_is_silent_witness:
  "handleClassifiedReply defaultConfig (\<lambda>n. Rejected ''quota'') 7000 (newCampaign ''c2'' ''x@y.org'' 10)
       \<lparr> classification = Some None, response = None, action = ''archive'' \<rparr>
       (worldOf [newCampaign ''c2'' ''x@y.org'' 10])
     = (Inr (), worldOf [newCampaign ''c2'' ''x@y.org'' 10])"
  using unknown_action_is_silent [of "\<lparr> classification = Some None, response = None, action = ''archive'' \<rparr>"
      defaultConfig "\<lambda>n. Rejected ''quota''" 7000 "newCampaign ''c2'' ''x@y.org'' 10"
      "worldOf [newCampaign ''c2'' ''x@y.org'' 10]"]
  by (simp add: knownActions_def)

subsection \<open>First click and first open (C4)\<close>

text \<open>
  C4 does not hold for the provider's click event: \<open>handleEmailClicked\<close> writes
  \<open>clicked_at\<close> on every click. A campaign first clicked at 1000 that receives a click
  event at 2000 ends with \<open>clicked_at\<close> 2000. (\<open>trackClick\<close>, \<open>trackOpen\<close> and
  \<open>handleEmailOpened\<close> write the time stamp only when it is unset.)
\<close>

theorem webhook_click_overwrites_clicked_at:
  "map clicked_at (outreach_campaigns
     (handleEmailClicked 2000
        \<lparr> email_id = Some ''e1'', rcpt = ''a@b.com'', link = Some ''https://example.com/'' \<rparr>
        (worldOf [(newCampaign ''c1'' ''a@b.com'' 0)\<lparr> clicked_at := Some 1000, click_count := Some 1 \<rparr>])))
   = [Some 2000]"
  by (simp add: handleEmailClicked_def findCampaignByEmail_def trim_lower_example worldOf_def
      newCampaign_def updateCampaign_def logEngagement_def truthy_def Let_def orZero_def)

subsection \<open>Clicks on the scheduling link (C5)\<close>




subsection \<open>What a follow-up step writes (C10)\<close>

lemma isEmailBlocked_blockedWorld: "isEmailBlocked ''a@b.com'' (blockedWorld cs ''a@b.com'')"
  by (simp add: isEmailBlocked_def blockedWorld_def lower_example)

lemma first_step_default:
  "nth_opt (defaultSequence defaultConfig) (getCurrentSequenceStep ''sent'')
     = Some \<lparr> delay = 72, step_type = ''follow_up_1'', step_subject = ''Quick follow-up'' \<rparr>"
  by (simp add: nth_opt_def defaultConfig_def getCurrentSequenceStep_def)

text \<open>
  C10: when \<open>sendNextFollowUp\<close> has a next step for the campaign (and the campaign has a
  recipient, so that \<open>sendEmail\<close> returns), then whatever \<open>sendEmail\<close> returned, the
  call returns normally, every row of the campaign gets the step's type as status,
  \<open>last_followup_at\<close> stamped and \<open>followup_count\<close> one above the campaign's, and one
  conversation message of the step's type is appended. For a blocked recipient no provider
  call is made at all, and for a blocked recipient or a provider that does not accept the
  call, no mail is counted as sent.
\<close>

theorem followup_advances_whatever_send_returns:
  assumes "nth_opt (defaultSequence cfg) (getCurrentSequenceStep (status c)) = Some nextStep"
    and "recipient_email c = Some addr"
  shows "fst (sendNextFollowUp cfg prov now c w) = Inr ()
    \<and> outreach_campaigns (snd (sendNextFollowUp cfg prov now c w))
        = map (\<lambda>r. if cid r = cid c
                     then r\<lparr> status := step_type nextStep, last_followup_at := Some now,
                             followup_count := Some (orZero (followup_count c) + 1),
                             updated_at := Some now \<rparr>
                     else r) (outreach_campaigns w)
    \<and> email_conversations (snd (sendNextFollowUp cfg prov now c w))
        = email_conversations w @
          [\<lparr> msg_campaign_id = cid c, msg_direction = ''outgoing'',
             msg_message_type = step_type nextStep,
             msg_subject = fst (generateFollowUpEmail cfg c nextStep),
             msg_message_content = snd (generateFollowUpEmail cfg c nextStep),
             msg_sent_at = now \<rparr>]
    \<and> (isEmailBlocked addr w \<longrightarrow>
          resend_calls (snd (sendNextFollowUp cfg prov now c w)) = resend_calls w)
    \<and> (isEmailBlocked addr w \<or> (\<forall>m. prov (length (resend_calls w)) \<noteq> Accepted m) \<longrightarrow>
          emailsSent (snd (sendNextFollowUp cfg prov now c w)) = emailsSent w)"
  using sendEmail_not_dispatched [of addr w prov cfg "fst (generateFollowUpEmail cfg c nextStep)"
      "snd (generateFollowUpEmail cfg c nextStep)" "Some (cid c)"]
  by (simp add: sendNextFollowUp_Some [OF assms] storeOutgoingEmail_def updateCampaign_def
      sendEmail_tables sendEmail_blocked)

theorem followup_advances_whatever_send_returns_witness:
  "fst (sendNextFollowUp defaultConfig (\<lambda>n. Accepted ''m'') 9000 (newCampaign ''c1'' ''a@b.com'' 0)
          (blockedWorld [newCampaign ''c1'' ''a@b.com'' 0] ''a@b.com'')) = Inr ()
   \<and> map (\<lambda>r. (status r, last_followup_at r, followup_count r))
        (outreach_campaigns (snd (sendNextFollowUp defaultConfig (\<lambda>n. Accepted ''m'') 9000
           (newCampaign ''c1'' ''a@b.com'' 0) (blockedWorld [newCampaign ''c1'' ''a@b.com'' 0] ''a@b.com''))))
      = [(''follow_up_1'', Some 9000, Some 1)]
   \<and> map msg_message_type
        (email_conversations (snd (sendNextFollowUp defaultConfig (\<lambda>n. Accepted ''m'') 9000
           (newCampaign ''c1'' ''a@b.com'' 0) (blockedWorld [newCampaign ''c1'' ''a@b.com'' 0] ''a@b.com''))))
      = [''follow_up_1'']
   \<and> resend_calls (snd (sendNextFollowUp defaultConfig (\<lambda>n. Accepted ''m'') 9000
           (newCampaign ''c1'' ''a@b.com'' 0) (blockedWorld [newCampaign ''c1'' ''a@b.com'' 0] ''a@b.com'')))
      = []"
proof -
  let ?c = "newCampaign ''c1'' ''a@b.com'' 0"
  let ?w = "blockedWorld [?c] ''a@b.com''"
  let ?s = "\<lparr> delay = 72, step_type = ''follow_up_1'', step_subject = ''Quick follow-up'' \<rparr>"
  have h1: "nth_opt (defaultSequence defaultConfig) (getCurrentSequenceStep (status ?c)) = Some ?s"
    by (simp add: newCampaign_def first_step_default)
  have h2: "recipient_email ?c = Some ''a@b.com''"
    by (simp add: newCampaign_def)
  note t = followup_advances_whatever_send_returns [OF h1 h2, of "\<lambda>n. Accepted ''m''" 9000 ?w]
  have b: "isEmailBlocked ''a@b.com'' ?w"
    by (rule isEmailBlocked_blockedWorld)
  from t b have calls: "resend_calls (snd (sendNextFollowUp defaultConfig (\<lambda>n. Accepted ''m'') 9000 ?c ?w))
      = resend_calls ?w"
    by blast
  from t have rows: "outreach_campaigns (snd (sendNextFollowUp defaultConfig (\<lambda>n. Accepted ''m'') 9000 ?c ?w))
        = map (\<lambda>r. if cid r = cid ?c
                     then r\<lparr> status := step_type ?s, last_followup_at := Some 9000,
                             followup_count := Some (orZero (followup_count ?c) + 1),
                             updated_at := Some 9000 \<rparr>
                     else r) (outreach_campaigns ?w)"
    by blast
  from t have msgs: "map msg_message_type
        (email_conversations (snd (sendNextFollowUp defaultConfig (\<lambda>n. Accepted ''m'') 9000 ?c ?w)))
      = map msg_message_type (email_conversations ?w) @ [step_type ?s]"
    by simp
  from t have ret: "fst (sendNextFollowUp defaultConfig (\<lambda>n. Accepted ''m'') 9000 ?c ?w) = Inr ()"
    by blast
  show ?thesis
    unfolding calls rows msgs ret
    by (simp add: blockedWorld_def worldOf_def newCampaign_def orZero_def)
qed

subsection \<open>The blocklist short circuit (C3)\<close>

text \<open>
  C3, as stated, fails on the sequencer's path: the recipient is blocked, no mail goes
  out, and yet the sweep (here 73 hours, 262800000 milliseconds, after the first mail)
  appends a conversation message for the follow-up.
\<close>

theorem blocked_followup_stores_message:
  "isEmailBlocked ''a@b.com'' (blockedWorld [newCampaign ''c1'' ''a@b.com'' 0] ''a@b.com'')
   \<and> email_conversations (blockedWorld [newCampaign ''c1'' ''a@b.com'' 0] ''a@b.com'') = []
   \<and> map (\<lambda>m. (msg_campaign_id m, msg_message_type m))
        (email_conversations (snd (processFollowUpQueue defaultConfig (\<lambda>n. Accepted ''m'')
           262800000 (blockedWorld [newCampaign ''c1'' ''a@b.com'' 0] ''a@b.com''))))
      = [(''c1'', ''follow_up_1'')]
   \<and> resend_calls (snd (processFollowUpQueue defaultConfig (\<lambda>n. Accepted ''m'')
           262800000 (blockedWorld [newCampaign ''c1'' ''a@b.com'' 0] ''a@b.com''))) = []"
proof -
  let ?c = "newCampaign ''c1'' ''a@b.com'' 0"
  let ?w = "blockedWorld [?c] ''a@b.com''"
  let ?s = "\<lparr> delay = 72, step_type = ''follow_up_1'', step_subject = ''Quick follow-up'' \<rparr>"
  have h1: "nth_opt (defaultSequence defaultConfig) (getCurrentSequenceStep (status ?c)) = Some ?s"
    by (simp add: newCampaign_def first_step_default)
  have h2: "recipient_email ?c = Some ''a@b.com''"
    by (simp add: newCampaign_def)
  have b: "isEmailBlocked ''a@b.com'' ?w"
    by (rule isEmailBlocked_blockedWorld)
  have q: "followUpQuery ?w = [?c]"
    by (simp add: followUpQuery_def blockedWorld_def worldOf_def newCampaign_def)
  have due: "shouldSendFollowUp defaultConfig 262800000 ?c"
    by (simp add: shouldSendFollowUp_ms nth_opt_def defaultConfig_def getCurrentSequenceStep_def
        hoursNeededAt_def lastFollowUpOf_def sentAtOf_def newCampaign_def)
  have run: "processFollowUpQueue defaultConfig (\<lambda>n. Accepted ''m'') 262800000 ?w
      = (Inr 1, (snd (sendNextFollowUp defaultConfig (\<lambda>n. Accepted ''m'') 262800000 ?c ?w))
           \<lparr> followUpsSent := followUpsSent (snd (sendNextFollowUp defaultConfig (\<lambda>n. Accepted ''m'')
               262800000 ?c ?w)) + 1 \<rparr>)"
    by (simp add: processFollowUpQueue_def q due sendNextFollowUp_Some [OF h1 h2])
  show ?thesis
    unfolding run
    by (simp add: b sendNextFollowUp_Some [OF h1 h2] sendEmail_blocked [OF b]
        storeOutgoingEmail_def updateCampaign_def)
       (simp add: blockedWorld_def worldOf_def newCampaign_def)
qed

text \<open>
  C3, amended: for a recipient that \<open>isEmailBlocked\<close> finds in the blocklist, \<open>sendEmail\<close>
  returns the blocked result, not an error, and leaves the world as it was: no provider
  call and no conversation message. Each caller of \<open>sendEmail\<close>, the sequencer's
  \<open>sendNextFollowUp\<close> included, then returns normally and has made no provider call.
\<close>

theorem blocked_send_short_circuits:
  assumes "isEmailBlocked addr w"
  shows "sendEmail cfg prov (Some addr) subj body i w = (Inr Blocked, w)
    \<and> (recipient_email c = Some addr \<longrightarrow>
         fst (sendNextFollowUp cfg prov now c w) = Inr ()
         \<and> resend_calls (snd (sendNextFollowUp cfg prov now c w)) = resend_calls w
         \<and> fst (sendBookingEmail cfg prov now c w) = Inr ()
         \<and> resend_calls (snd (sendBookingEmail cfg prov now c w)) = resend_calls w
         \<and> fst (sendFollowUpEmail cfg prov now c responseText ty w) = Inr ()
         \<and> resend_calls (snd (sendFollowUpEmail cfg prov now c responseText ty w)) = resend_calls w)"
  using assms
  by (simp add: sendEmail_blocked sendNextFollowUp_def sendBookingEmail_def sendFollowUpEmail_def
      Let_def storeOutgoingEmail_def updateCampaign_def split: option.splits)

theorem blocked_send_short_circuits_witness:
  "sendEmail defaultConfig (\<lambda>n. Accepted ''m'') (Some ''a@b.com'') ''Hello'' ''Text'' (Some ''c1'')
       (blockedWorld [newCampaign ''c1'' ''a@b.com'' 0] ''a@b.com'')
     = (Inr Blocked, blockedWorld [newCampaign ''c1'' ''a@b.com'' 0] ''a@b.com'')
   \<and> resend_calls (snd (sendNextFollowUp defaultConfig (\<lambda>n. Accepted ''m'') 9000
         (newCampaign ''c1'' ''a@b.com'' 0) (blockedWorld [newCampaign ''c1'' ''a@b.com'' 0] ''a@b.com'')))
     = resend_calls (blockedWorld [newCampaign ''c1'' ''a@b.com'' 0] ''a@b.com'')"
proof -
  have h: "recipient_email (newCampaign ''c1'' ''a@b.com'' 0) = Some ''a@b.com''"
    by (simp add: newCampaign_def)
  show ?thesis
    using blocked_send_short_circuits [OF isEmailBlocked_blockedWorld,
        of defaultConfig "\<lambda>n. Accepted ''m''" "''Hello''" "''Text''" "Some ''c1''"
           "[newCampaign ''c1'' ''a@b.com'' 0]" "newCampaign ''c1'' ''a@b.com'' 0" 9000] h
    by blast
qed

subsection \<open>The funnel (C9)\<close>






subsection \<open>Halted campaigns and the sequencer (C1)\<close>

lemma updateCampaign_frame:
  "email_blocklist (updateCampaign now i f w) = email_blocklist w"
  "email_conversations (updateCampaign now i f w) = email_conversations w"
  "email_engagement (updateCampaign now i f w) = email_engagement w"
  "resend_calls (updateCampaign now i f w) = resend_calls w"
  by (simp_all add: updateCampaign_def)

lemma sendNextFollowUp_calls:
  "\<exists>xs. resend_calls (snd (sendNextFollowUp cfg prov now c w)) = resend_calls w @ xs
        \<and> list_all (\<lambda>x. call_campaign x = Some (cid c)) xs"
proof (cases "nth_opt (defaultSequence cfg) (getCurrentSequenceStep (status c))")
  case None
  then show ?thesis by (simp add: sendNextFollowUp_def)
next
  case (Some nextStep)
  show ?thesis
  proof (cases "recipient_email c")
    case None
    with Some show ?thesis by (simp add: sendNextFollowUp_def sendEmail_null)
  next
    case (Some addr)
    from sendEmail_calls [of cfg prov "Some addr" "fst (generateFollowUpEmail cfg c nextStep)"
        "snd (generateFollowUpEmail cfg c nextStep)" "Some (cid c)" w]
    show ?thesis
      using \<open>nth_opt (defaultSequence cfg) (getCurrentSequenceStep (status c)) = Some nextStep\<close> Some
      by (simp add: sendNextFollowUp_Some storeOutgoingEmail_def updateCampaign_frame)
  qed
qed

text \<open>The columns that say whether a campaign is halted, by row.\<close>

lemma sendNextFollowUp_halt_columns:
  "map (\<lambda>r. (cid r, replied_at r, bounced_at r, unsubscribed_at r))
       (outreach_campaigns (snd (sendNextFollowUp cfg prov now c w)))
   = map (\<lambda>r. (cid r, replied_at r, bounced_at r, unsubscribed_at r)) (outreach_campaigns w)"
proof (cases "nth_opt (defaultSequence cfg) (getCurrentSequenceStep (status c))")
  case None
  then show ?thesis by (simp add: sendNextFollowUp_def)
next
  case (Some nextStep)
  show ?thesis
  proof (cases "recipient_email c")
    case None
    with Some show ?thesis by (simp add: sendNextFollowUp_def sendEmail_null)
  next
    case (Some addr)
    show ?thesis
      using \<open>nth_opt (defaultSequence cfg) (getCurrentSequenceStep (status c)) = Some nextStep\<close> Some
      by (simp add: sendNextFollowUp_Some storeOutgoingEmail_def updateCampaign_def sendEmail_tables)
  qed
qed

lemma followUpLoop_keeps:
  assumes "list_all (\<lambda>c. cid c \<noteq> i) cs"
  shows "map (\<lambda>r. (cid r, replied_at r, bounced_at r, unsubscribed_at r))
           (outreach_campaigns (snd (followUpLoop cfg prov now cs n w)))
         = map (\<lambda>r. (cid r, replied_at r, bounced_at r, unsubscribed_at r)) (outreach_campaigns w)
       \<and> filter (\<lambda>x. call_campaign x = Some i) (resend_calls (snd (followUpLoop cfg prov now cs n w)))
         = filter (\<lambda>x. call_campaign x = Some i) (resend_calls w)"
  using assms
proof (induction cs arbitrary: now n w)
  case Nil
  then show ?case by simp
next
  case (Cons c cs)
  then have ne: "cid c \<noteq> i" and rest: "list_all (\<lambda>c. cid c \<noteq> i) cs"
    by simp_all
  obtain res w1 where s: "sendNextFollowUp cfg prov now c w = (res, w1)"
    by (cases "sendNextFollowUp cfg prov now c w")
  obtain xs where xs: "resend_calls w1 = resend_calls w @ xs"
      "list_all (\<lambda>x. call_campaign x = Some (cid c)) xs"
    using sendNextFollowUp_calls [of cfg prov now c w] s by auto
  from xs(2) ne have "filter (\<lambda>x. call_campaign x = Some i) xs = []"
    by (induction xs) auto
  with xs(1) have calls: "filter (\<lambda>x. call_campaign x = Some i) (resend_calls w1)
      = filter (\<lambda>x. call_campaign x = Some i) (resend_calls w)"
    by simp
  have cols: "map (\<lambda>r. (cid r, replied_at r, bounced_at r, unsubscribed_at r)) (outreach_campaigns w1)
      = map (\<lambda>r. (cid r, replied_at r, bounced_at r, unsubscribed_at r)) (outreach_campaigns w)"
    using sendNextFollowUp_halt_columns [of cfg prov now c w] s by simp
  show ?case
  proof (cases "shouldSendFollowUp cfg now c")
    case False
    then show ?thesis using Cons.IH [OF rest] by simp
  next
    case True
    show ?thesis
    proof (cases res)
      case (Inl e)
      with True s calls cols show ?thesis by simp
    next
      case (Inr u)
      with True s calls cols Cons.IH [OF rest, of "now + 10000" "n + 1" w1] show ?thesis by simp
    qed
  qed
qed

lemma processFollowUpQueue_keeps:
  assumes "list_all (\<lambda>r. cid r \<noteq> i \<or> halted r) (outreach_campaigns w)"
  shows "map (\<lambda>r. (cid r, replied_at r, bounced_at r, unsubscribed_at r))
           (outreach_campaigns (snd (processFollowUpQueue cfg prov now w)))
         = map (\<lambda>r. (cid r, replied_at r, bounced_at r, unsubscribed_at r)) (outreach_campaigns w)
       \<and> filter (\<lambda>x. call_campaign x = Some i) (resend_calls (snd (processFollowUpQueue cfg prov now w)))
         = filter (\<lambda>x. call_campaign x = Some i) (resend_calls w)
       \<and> list_all (\<lambda>c. cid c \<noteq> i) (followUpQuery w)"
proof -
  have q: "list_all (\<lambda>c. cid c \<noteq> i) (followUpQuery w)"
    using assms by (auto simp: followUpQuery_def list_all_iff halted_def)
  obtain res w1 where l: "followUpLoop cfg prov now (followUpQuery w) 0 w = (res, w1)"
    by (cases "followUpLoop cfg prov now (followUpQuery w) 0 w")
  from followUpLoop_keeps [OF q, of cfg prov now 0 w] l q show ?thesis
    by (cases res) (simp_all add: processFollowUpQueue_def)
qed

lemma halted_by_columns:
  assumes "map (\<lambda>r. (cid r, replied_at r, bounced_at r, unsubscribed_at r)) rs
         = map (\<lambda>r. (cid r, replied_at r, bounced_at r, unsubscribed_at r)) rs'"
    and "list_all (\<lambda>r. cid r \<noteq> i \<or> halted r) rs'"
  shows "list_all (\<lambda>r. cid r \<noteq> i \<or> halted r) rs"
proof -
  have "list_all (\<lambda>r. cid r \<noteq> i \<or> halted r) xs
        = list_all (\<lambda>(j, a, b, c). j \<noteq> i \<or> a \<noteq> None \<or> b \<noteq> None \<or> c \<noteq> None)
            (map (\<lambda>r. (cid r, replied_at r, bounced_at r, unsubscribed_at r)) xs)" for xs
    by (induction xs) (auto simp: halted_def)
  with assms show ?thesis by simp
qed

lemma sweeps_keep:
  assumes "list_all (\<lambda>r. cid r \<noteq> i \<or> halted r) (outreach_campaigns w)"
  shows "list_all (\<lambda>r. cid r \<noteq> i \<or> halted r) (outreach_campaigns (sweeps cfg prov nows w))
       \<and> filter (\<lambda>x. call_campaign x = Some i) (resend_calls (sweeps cfg prov nows w))
         = filter (\<lambda>x. call_campaign x = Some i) (resend_calls w)"
  using assms
proof (induction nows arbitrary: w)
  case Nil
  then show ?case by simp
next
  case (Cons now nows)
  let ?w1 = "snd (processFollowUpQueue cfg prov now w)"
  note k = processFollowUpQueue_keeps [OF Cons.prems, of cfg prov now]
  then have "list_all (\<lambda>r. cid r \<noteq> i \<or> halted r) (outreach_campaigns ?w1)"
    using halted_by_columns Cons.prems by blast
  from Cons.IH [OF this] k show ?case by simp
qed

text \<open>
  C1: let a campaign of the table have any of \<open>replied_at\<close>, \<open>bounced_at\<close>,
  \<open>unsubscribed_at\<close> set (the ids of the table being distinct, as a primary key is).
  Then after any number of sweeps, at any times and with any provider answers, the query
  of the next sweep does not return the campaign, and no provider call for the campaign
  has been added.
\<close>

theorem sequencer_never_advances_halted:
  assumes "c \<in> set (outreach_campaigns w)"
    and "replied_at c \<noteq> None \<or> bounced_at c \<noteq> None \<or> unsubscribed_at c \<noteq> None"
    and "distinct (map cid (outreach_campaigns w))"
  shows "list_all (\<lambda>r. cid r \<noteq> cid c) (followUpQuery (sweeps cfg prov nows w))
       \<and> filter (\<lambda>x. call_campaign x = Some (cid c)) (resend_calls (sweeps cfg prov nows w))
         = filter (\<lambda>x. call_campaign x = Some (cid c)) (resend_calls w)"
proof -
  have "r = c" if "r \<in> set (outreach_campaigns w)" "cid r = cid c" for r
    using that assms(1,3) by (meson distinct_map inj_onD)
  with assms(2) have "list_all (\<lambda>r. cid r \<noteq> cid c \<or> halted r) (outreach_campaigns w)"
    by (auto simp: list_all_iff halted_def)
  from sweeps_keep [OF this, of cfg prov nows]
  have k: "list_all (\<lambda>r. cid r \<noteq> cid c \<or> halted r) (outreach_campaigns (sweeps cfg prov nows w))"
    and calls: "filter (\<lambda>x. call_campaign x = Some (cid c)) (resend_calls (sweeps cfg prov nows w))
         = filter (\<lambda>x. call_campaign x = Some (cid c)) (resend_calls w)"
    by simp_all
  from processFollowUpQueue_keeps [OF k, of cfg prov 0] calls show ?thesis
    by simp
qed


lemma sweeps_example:
  "map call_campaign (resend_calls (sweeps defaultConfig (\<lambda>n. Accepted ''m'') [262800000, 266400000]
      (worldOf [(newCampaign ''c1'' ''a@b.com'' 0)\<lparr> replied_at := Some 50 \<rparr>,
                newCampaign ''c2'' ''x@y.org'' 0])))
   = [Some ''c2'']"
  by code_simp

theorem sequencer_never_advances_halted_witness:
  "list_all (\<lambda>r. cid r \<noteq> ''c1'')
     (followUpQuery (sweeps defaultConfig (\<lambda>n. Accepted ''m'') [262800000, 266400000]
        (worldOf [(newCampaign ''c1'' ''a@b.com'' 0)\<lparr> replied_at := Some 50 \<rparr>,
                  newCampaign ''c2'' ''x@y.org'' 0])))
   \<and> filter (\<lambda>x. call_campaign x = Some ''c1'')
       (resend_calls (sweeps defaultConfig (\<lambda>n. Accepted ''m'') [262800000, 266400000]
          (worldOf [(newCampaign ''c1'' ''a@b.com'' 0)\<lparr> replied_at := Some 50 \<rparr>,
                    newCampaign ''c2'' ''x@y.org'' 0]))) = []
   \<and> map call_campaign
       (resend_calls (sweeps defaultConfig (\<lambda>n. Accepted ''m'') [262800000, 266400000]
          (worldOf [(newCampaign ''c1'' ''a@b.com'' 0)\<lparr> replied_at := Some 50 \<rparr>,
                    newCampaign ''c2'' ''x@y.org'' 0]))) = [Some ''c2'']"
proof -
  let ?c = "(newCampaign ''c1'' ''a@b.com'' 0)\<lparr> replied_at := Some 50 \<rparr>"
  let ?w = "worldOf [?c, newCampaign ''c2'' ''x@y.org'' 0]"
  have h1: "?c \<in> set (outreach_campaigns ?w)"
    by (simp add: worldOf_def)
  have h2: "replied_at ?c \<noteq> None \<or> bounced_at ?c \<noteq> None \<or> unsubscribed_at ?c \<noteq> None"
    by simp
  have h3: "distinct (map cid (outreach_campaigns ?w))"
    by (simp add: worldOf_def newCampaign_def)
  have i: "cid ?c = ''c1''"
    by (simp add: newCampaign_def)
  have e: "resend_calls ?w = []"
    by (simp add: worldOf_def)
  from sequencer_never_advances_halted [OF h1 h2 h3, of defaultConfig "\<lambda>n. Accepted ''m''"
      "[262800000, 266400000]"]
  show ?thesis
    unfolding i e using sweeps_example by simp
qed

subsection \<open>Cleaning a reply (C7)\<close>











lemma cutAt_prefix: "\<exists>j. cutAt s m = take j s"
proof (cases "search m s")
  case None
  then have "cutAt s m = take (length s) s" by (simp add: cutAt_def)
  then show ?thesis by blast
next
  case (Some i)
  then have "cutAt s m = take (if i > 0 then i else length s) s" by (simp add: cutAt_def)
  then show ?thesis by blast
qed

lemma foldl_cutAt_prefix: "\<exists>j. foldl cutAt s ms = take j s"
proof (induction ms arbitrary: s)
  case Nil
  have "foldl cutAt s [] = take (length s) s" by simp
  then show ?case by blast
next
  case (Cons m ms)
  obtain j where j: "cutAt s m = take j s" using cutAt_prefix by blast
  obtain j' where "foldl cutAt (cutAt s m) ms = take j' (cutAt s m)" using Cons.IH by blast
  with j have "foldl cutAt s (m # ms) = take (min j' j) s" by simp
  then show ?case by blast
qed

lemma rev_dropWhile_rev:
  "rev (dropWhile P (rev x)) = take (length x - length (takeWhile P (rev x))) x"
proof -
  have "dropWhile P (rev x) = drop (length (takeWhile P (rev x))) (rev x)"
    by (simp add: dropWhile_eq_drop)
  then have "rev (dropWhile P (rev x)) = rev (drop (length (takeWhile P (rev x))) (rev x))"
    by simp
  also have "\<dots> = take (length x - length (takeWhile P (rev x))) x"
    by (simp add: rev_drop)
  finally show ?thesis .
qed

lemma trim_slice: "\<exists>a b. trim s = take a (drop b s)"
proof -
  have "trim s = take (length (dropWhile isSpace s)
                       - length (takeWhile isSpace (rev (dropWhile isSpace s))))
                      (drop (length (takeWhile isSpace s)) s)"
    unfolding trim_def rev_dropWhile_rev
    by (simp add: dropWhile_eq_drop)
  then show ?thesis by blast
qed




lemma cleanReplyText_prefix: "\<exists>a b. cleanReplyText (Some t) = take a (drop b t)"
proof (cases "t = []")
  case True
  then have "cleanReplyText (Some t) = take 0 (drop 0 t)"
    by (simp add: cleanReplyText_def truthy_def)
  then show ?thesis by blast
next
  case False
  obtain j where j: "foldl cutAt t patterns = take j t" using foldl_cutAt_prefix by blast
  obtain a b where "trim (take j t) = take a (drop b (take j t))" using trim_slice by blast
  then have "trim (take j t) = take (min a (j - b)) (drop b t)"
    by (simp add: drop_take min.commute)
  with False j show ?thesis
    by (auto simp: cleanReplyText_def truthy_def)
qed





subsection \<open>Link instrumentation (C8)\<close>










lemma addTracking_without_campaign:
  "addTracking cfg body None = body" "addTracking cfg body (Some []) = body"
  by (simp_all add: addTracking_def truthy_def)

lemma addTracking_example:
  "addTracking defaultConfig ''See https://example.com/a?b=1 or https://calendly.com/x.'' (Some ''c1'')
   = ''See https://web-production-486cb.up.railway.app/api/track/click/c1?url=https%3A%2F%2Fexample.com%2Fa%3Fb%3D1 or https://calendly.com/x.''
     @ trackingPixel defaultConfig ''c1''"
  by code_simp



subsection \<open>What holds of the counters and first time stamps\<close>

text \<open>
  What the engine keeps of the counters and first time stamps, for a table with distinct ids: every one of the
  four recordings leaves each \<open>open_count\<close> and \<open>click_count\<close> at least as large as it
  was; \<open>trackOpen\<close> and \<open>handleEmailOpened\<close> never change an \<open>opened_at\<close> that is set,
  and \<open>trackClick\<close> never changes a \<open>clicked_at\<close> that is set; and two opens of a
  fresh campaign through the pixel leave \<open>opened_at\<close> at the first time and
  \<open>open_count\<close> at 2.
\<close>

lemma singleById_unique:
  assumes "singleById i w = Some c"
  shows "c \<in> set (outreach_campaigns w) \<and> cid c = i
         \<and> (\<forall>r\<in>set (outreach_campaigns w). cid r = i \<longrightarrow> r = c)"
proof -
  from assms have f: "filter (\<lambda>r. cid r = i) (outreach_campaigns w) = [c]"
    by (auto simp: singleById_def split: list.splits)
  then have "set (filter (\<lambda>r. cid r = i) (outreach_campaigns w)) = {c}"
    by simp
  then show ?thesis by auto
qed

lemma distinct_ids_unique:
  assumes "distinct (map cid rs)" "c \<in> set rs" "r \<in> set rs" "cid r = cid c"
  shows "r = c"
  using assms by (meson distinct_map inj_onD)

lemma trackOpen_rows:
  assumes "singleById i w = Some c"
  shows "outreach_campaigns (trackOpen now i w)
       = map (\<lambda>r. if r = c
                   then r\<lparr> open_count := Some (orZero (open_count r) + 1),
                           opened_at := (if opened_at r = None then Some now else opened_at r),
                           updated_at := Some now \<rparr>
                   else r) (outreach_campaigns w)"
proof -
  have "(if cid r = i
         then (if opened_at c = None
               then r\<lparr> open_count := Some (orZero (open_count c) + 1), opened_at := Some now \<rparr>
               else r\<lparr> open_count := Some (orZero (open_count c) + 1) \<rparr>)\<lparr> updated_at := Some now \<rparr>
         else r)
        = (if r = c
           then r\<lparr> open_count := Some (orZero (open_count r) + 1),
                   opened_at := (if opened_at r = None then Some now else opened_at r),
                   updated_at := Some now \<rparr>
           else r)"
    if "r \<in> set (outreach_campaigns w)" for r
  proof -
    have "(cid r = i) = (r = c)"
      using singleById_unique [OF assms] that by blast
    then show ?thesis
      by (cases "r = c"; cases "opened_at c") simp_all
  qed
  then have e1: "map (\<lambda>r. if cid r = i
         then (if opened_at c = None
               then r\<lparr> open_count := Some (orZero (open_count c) + 1), opened_at := Some now \<rparr>
               else r\<lparr> open_count := Some (orZero (open_count c) + 1) \<rparr>)\<lparr> updated_at := Some now \<rparr>
         else r) (outreach_campaigns w)
     = map (\<lambda>r. if r = c
           then r\<lparr> open_count := Some (orZero (open_count r) + 1),
                   opened_at := (if opened_at r = None then Some now else opened_at r),
                   updated_at := Some now \<rparr>
           else r) (outreach_campaigns w)"
    by (intro map_cong [OF refl])
  have e2: "outreach_campaigns (trackOpen now i w)
     = map (\<lambda>r. if cid r = i
         then (if opened_at c = None
               then r\<lparr> open_count := Some (orZero (open_count c) + 1), opened_at := Some now \<rparr>
               else r\<lparr> open_count := Some (orZero (open_count c) + 1) \<rparr>)\<lparr> updated_at := Some now \<rparr>
         else r) (outreach_campaigns w)"
    using assms by (simp add: trackOpen_def updateCampaign_def logEngagement_def)
  show ?thesis
    unfolding e2 by (rule e1)
qed

lemma trackClick_rows:
  assumes "singleById i w = Some c"
  shows "outreach_campaigns (snd (trackClick now i url w))
       = map (\<lambda>r. if r = c
                   then r\<lparr> click_count := Some (orZero (click_count r) + 1),
                           clicked_at := (if clicked_at r = None then Some now else clicked_at r),
                           updated_at := Some now \<rparr>
                   else r) (outreach_campaigns w)"
proof -
  have "(if cid r = i
         then (if clicked_at c = None
               then r\<lparr> click_count := Some (orZero (click_count c) + 1), clicked_at := Some now \<rparr>
               else r\<lparr> click_count := Some (orZero (click_count c) + 1) \<rparr>)\<lparr> updated_at := Some now \<rparr>
         else r)
        = (if r = c
           then r\<lparr> click_count := Some (orZero (click_count r) + 1),
                   clicked_at := (if clicked_at r = None then Some now else clicked_at r),
                   updated_at := Some now \<rparr>
           else r)"
    if "r \<in> set (outreach_campaigns w)" for r
  proof -
    have "(cid r = i) = (r = c)"
      using singleById_unique [OF assms] that by blast
    then show ?thesis
      by (cases "r = c"; cases "clicked_at c") simp_all
  qed
  then have e1: "map (\<lambda>r. if cid r = i
         then (if clicked_at c = None
               then r\<lparr> click_count := Some (orZero (click_count c) + 1), clicked_at := Some now \<rparr>
               else r\<lparr> click_count := Some (orZero (click_count c) + 1) \<rparr>)\<lparr> updated_at := Some now \<rparr>
         else r) (outreach_campaigns w)
     = map (\<lambda>r. if r = c
           then r\<lparr> click_count := Some (orZero (click_count r) + 1),
                   clicked_at := (if clicked_at r = None then Some now else clicked_at r),
                   updated_at := Some now \<rparr>
           else r) (outreach_campaigns w)"
    by (intro map_cong [OF refl])
  have e2: "outreach_campaigns (snd (trackClick now i url w))
     = map (\<lambda>r. if cid r = i
         then (if clicked_at c = None
               then r\<lparr> click_count := Some (orZero (click_count c) + 1), clicked_at := Some now \<rparr>
               else r\<lparr> click_count := Some (orZero (click_count c) + 1) \<rparr>)\<lparr> updated_at := Some now \<rparr>
         else r) (outreach_campaigns w)"
    using assms by (simp add: trackClick_def updateCampaign_def logEngagement_def)
  show ?thesis
    unfolding e2 by (rule e1)
qed

lemma handleEmailOpened_rows:
  assumes "findCampaignByEmail (rcpt d) w = Some c" and "distinct (map cid (outreach_campaigns w))"
  shows "outreach_campaigns (handleEmailOpened now d w)
       = map (\<lambda>r. if r = c
                   then r\<lparr> open_count := Some (orZero (open_count r) + 1),
                           opened_at := (if opened_at r = None then Some now else opened_at r),
                           updated_at := Some now \<rparr>
                   else r) (outreach_campaigns w)"
proof -
  have mem: "c \<in> set (outreach_campaigns w)"
    using assms(1) by (rule findCampaignByEmail_mem)
  have "(if cid r = cid c
         then (if opened_at c = None
               then r\<lparr> opened_at := Some now, open_count := Some (orZero (open_count c) + 1) \<rparr>
               else r\<lparr> open_count := Some (orZero (open_count c) + 1) \<rparr>)\<lparr> updated_at := Some now \<rparr>
         else r)
        = (if r = c
           then r\<lparr> open_count := Some (orZero (open_count r) + 1),
                   opened_at := (if opened_at r = None then Some now else opened_at r),
                   updated_at := Some now \<rparr>
           else r)"
    if "r \<in> set (outreach_campaigns w)" for r
    using distinct_ids_unique [OF assms(2) mem that] by (cases "opened_at c") auto
  then have e1: "map (\<lambda>r. if cid r = cid c
         then (if opened_at c = None
               then r\<lparr> opened_at := Some now, open_count := Some (orZero (open_count c) + 1) \<rparr>
               else r\<lparr> open_count := Some (orZero (open_count c) + 1) \<rparr>)\<lparr> updated_at := Some now \<rparr>
         else r) (outreach_campaigns w)
     = map (\<lambda>r. if r = c
           then r\<lparr> open_count := Some (orZero (open_count r) + 1),
                   opened_at := (if opened_at r = None then Some now else opened_at r),
                   updated_at := Some now \<rparr>
           else r) (outreach_campaigns w)"
    by (intro map_cong [OF refl])
  have e2: "outreach_campaigns (handleEmailOpened now d w)
     = map (\<lambda>r. if cid r = cid c
         then (if opened_at c = None
               then r\<lparr> opened_at := Some now, open_count := Some (orZero (open_count c) + 1) \<rparr>
               else r\<lparr> open_count := Some (orZero (open_count c) + 1) \<rparr>)\<lparr> updated_at := Some now \<rparr>
         else r) (outreach_campaigns w)"
    using assms(1)
    by (cases "opened_at c")
       (simp_all add: handleEmailOpened_def updateCampaign_def logEngagement_def)
  show ?thesis
    unfolding e2 by (rule e1)
qed

lemma handleEmailClicked_rows:
  assumes "findCampaignByEmail (rcpt d) w = Some c" and "distinct (map cid (outreach_campaigns w))"
  shows "map (\<lambda>r. (click_count r, clicked_at r)) (outreach_campaigns (handleEmailClicked now d w))
       = map (\<lambda>r. if r = c then (Some (orZero (click_count r) + 1), Some now)
                   else (click_count r, clicked_at r)) (outreach_campaigns w)"
proof -
  have mem: "c \<in> set (outreach_campaigns w)"
    using assms(1) by (rule findCampaignByEmail_mem)
  have eq: "(cid r = cid c) = (r = c)" if "r \<in> set (outreach_campaigns w)" for r
    using distinct_ids_unique [OF assms(2) mem that] by auto
  show ?thesis
    using assms(1) eq
    by (auto simp: handleEmailClicked_def Let_def updateCampaign_def logEngagement_def)
qed

lemma counts_only_increase:
  assumes "distinct (map cid (outreach_campaigns w))"
  shows "list_all2 (\<lambda>r r'. orZero (open_count r) \<le> orZero (open_count r')
                            \<and> orZero (click_count r) \<le> orZero (click_count r'))
           (outreach_campaigns w) (outreach_campaigns (trackOpen now i w))"
    and "list_all2 (\<lambda>r r'. orZero (open_count r) \<le> orZero (open_count r')
                            \<and> orZero (click_count r) \<le> orZero (click_count r'))
           (outreach_campaigns w) (outreach_campaigns (snd (trackClick now i url w)))"
    and "list_all2 (\<lambda>r r'. orZero (open_count r) \<le> orZero (open_count r')
                            \<and> orZero (click_count r) \<le> orZero (click_count r'))
           (outreach_campaigns w) (outreach_campaigns (handleEmailOpened now d w))"
    and "list_all2 (\<lambda>r r'. orZero (click_count r) \<le> orZero (click_count r'))
           (outreach_campaigns w) (outreach_campaigns (handleEmailClicked now d w))"
proof -
  show "list_all2 (\<lambda>r r'. orZero (open_count r) \<le> orZero (open_count r')
                            \<and> orZero (click_count r) \<le> orZero (click_count r'))
           (outreach_campaigns w) (outreach_campaigns (trackOpen now i w))"
  proof (cases "singleById i w")
    case None
    then show ?thesis by (simp add: trackOpen_def list_all2_same)
  next
    case (Some c)
    show ?thesis
      unfolding trackOpen_rows [OF Some]
      by (simp add: list_all2_map2 list_all2_same orZero_def)
  qed
  show "list_all2 (\<lambda>r r'. orZero (open_count r) \<le> orZero (open_count r')
                            \<and> orZero (click_count r) \<le> orZero (click_count r'))
           (outreach_campaigns w) (outreach_campaigns (snd (trackClick now i url w)))"
  proof (cases "singleById i w")
    case None
    then show ?thesis by (simp add: trackClick_def list_all2_same)
  next
    case (Some c)
    show ?thesis
      unfolding trackClick_rows [OF Some]
      by (simp add: list_all2_map2 list_all2_same orZero_def)
  qed
  show "list_all2 (\<lambda>r r'. orZero (open_count r) \<le> orZero (open_count r')
                            \<and> orZero (click_count r) \<le> orZero (click_count r'))
           (outreach_campaigns w) (outreach_campaigns (handleEmailOpened now d w))"
  proof (cases "findCampaignByEmail (rcpt d) w")
    case None
    then show ?thesis by (simp add: handleEmailOpened_def list_all2_same)
  next
    case (Some c)
    show ?thesis
      unfolding handleEmailOpened_rows [OF Some assms]
      by (simp add: list_all2_map2 list_all2_same orZero_def)
  qed
  show "list_all2 (\<lambda>r r'. orZero (click_count r) \<le> orZero (click_count r'))
           (outreach_campaigns w) (outreach_campaigns (handleEmailClicked now d w))"
  proof (cases "findCampaignByEmail (rcpt d) w")
    case None
    then show ?thesis by (simp add: handleEmailClicked_def list_all2_same)
  next
    case (Some c)
    have "list_all2 (\<lambda>r p. orZero (click_count r) \<le> orZero (fst p))
            (outreach_campaigns w)
            (map (\<lambda>r. (click_count r, clicked_at r)) (outreach_campaigns (handleEmailClicked now d w)))"
      unfolding handleEmailClicked_rows [OF Some assms]
      by (simp add: list_all2_map2 list_all2_same orZero_def)
    then show ?thesis
      by (simp add: list_all2_map2)
  qed
qed

lemma first_time_stamps_kept:
  assumes "distinct (map cid (outreach_campaigns w))"
  shows "list_all2 (\<lambda>r r'. opened_at r = None \<or> opened_at r' = opened_at r)
           (outreach_campaigns w) (outreach_campaigns (trackOpen now i w))"
    and "list_all2 (\<lambda>r r'. opened_at r = None \<or> opened_at r' = opened_at r)
           (outreach_campaigns w) (outreach_campaigns (handleEmailOpened now d w))"
    and "list_all2 (\<lambda>r r'. clicked_at r = None \<or> clicked_at r' = clicked_at r)
           (outreach_campaigns w) (outreach_campaigns (snd (trackClick now i url w)))"
proof -
  show "list_all2 (\<lambda>r r'. opened_at r = None \<or> opened_at r' = opened_at r)
           (outreach_campaigns w) (outreach_campaigns (trackOpen now i w))"
  proof (cases "singleById i w")
    case None
    then show ?thesis by (simp add: trackOpen_def list_all2_same)
  next
    case (Some c)
    show ?thesis
      unfolding trackOpen_rows [OF Some]
      by (simp add: list_all2_map2 list_all2_same)
  qed
  show "list_all2 (\<lambda>r r'. opened_at r = None \<or> opened_at r' = opened_at r)
           (outreach_campaigns w) (outreach_campaigns (handleEmailOpened now d w))"
  proof (cases "findCampaignByEmail (rcpt d) w")
    case None
    then show ?thesis by (simp add: handleEmailOpened_def list_all2_same)
  next
    case (Some c)
    show ?thesis
      unfolding handleEmailOpened_rows [OF Some assms]
      by (simp add: list_all2_map2 list_all2_same)
  qed
  show "list_all2 (\<lambda>r r'. clicked_at r = None \<or> clicked_at r' = clicked_at r)
           (outreach_campaigns w) (outreach_campaigns (snd (trackClick now i url w)))"
  proof (cases "singleById i w")
    case None
    then show ?thesis by (simp add: trackClick_def list_all2_same)
  next
    case (Some c)
    show ?thesis
      unfolding trackClick_rows [OF Some]
      by (simp add: list_all2_map2 list_all2_same)
  qed
qed

lemma trackOpen_twice:
  "map (\<lambda>r. (opened_at r, open_count r))
     (outreach_campaigns (trackOpen 2000 ''c1'' (trackOpen 1000 ''c1''
        (worldOf [newCampaign ''c1'' ''a@b.com'' 0]))))
   = [(Some 1000, Some 2)]"
  by code_simp

lemma sendNextFollowUp_null_recipient:
  "nth_opt (defaultSequence cfg) (getCurrentSequenceStep (status c)) = Some nextStep \<Longrightarrow>
   recipient_email c = None \<Longrightarrow>
   sendNextFollowUp cfg prov now c w = (Inl TypeError, w)"
  by (simp add: sendNextFollowUp_def sendEmail_null)

end
